theory Spec2Isabelle
  imports Complex_Main
begin

section \<open>Numbers of the kernel\<close>

text \<open>
  The kernel of \<^verbatim>\<open>src/amptorch/delta_models/morse.py\<close> computes with NumPy
  doubles. NumPy does not raise on a division by zero: it yields an infinity or NaN and
  goes on. The numbers are therefore modelled as exact reals extended with the three
  special values of IEEE arithmetic. Rounding, overflow and the sign of zero are not
  modelled: a finite result is the exact real result, and a nonzero number divided by
  zero is the infinity with the sign of the numerator.
\<close>

datatype npf = Fin real | PInf | NInf | NaN

fun finite_npf :: "npf \<Rightarrow> bool" where
  "finite_npf (Fin a) = True"
| "finite_npf PInf = False"
| "finite_npf NInf = False"
| "finite_npf NaN = False"

instantiation npf :: "{comm_monoid_add, uminus, minus, times, inverse, abs}"
begin

definition zero_npf :: npf where
  "zero_npf = Fin 0"

fun uminus_npf :: "npf \<Rightarrow> npf" where
  "uminus_npf (Fin a) = Fin (- a)"
| "uminus_npf PInf = NInf"
| "uminus_npf NInf = PInf"
| "uminus_npf NaN = NaN"

fun abs_npf :: "npf \<Rightarrow> npf" where
  "abs_npf (Fin a) = Fin \<bar>a\<bar>"
| "abs_npf PInf = PInf"
| "abs_npf NInf = PInf"
| "abs_npf NaN = NaN"

fun plus_npf :: "npf \<Rightarrow> npf \<Rightarrow> npf" where
  "plus_npf (Fin a) (Fin b) = Fin (a + b)"
| "plus_npf NaN y = NaN"
| "plus_npf x NaN = NaN"
| "plus_npf PInf NInf = NaN"
| "plus_npf NInf PInf = NaN"
| "plus_npf PInf y = PInf"
| "plus_npf x PInf = PInf"
| "plus_npf NInf y = NInf"
| "plus_npf x NInf = NInf"

definition minus_npf :: "npf \<Rightarrow> npf \<Rightarrow> npf" where
  "minus_npf x y = x + (- y)"

fun times_npf :: "npf \<Rightarrow> npf \<Rightarrow> npf" where
  "times_npf (Fin a) (Fin b) = Fin (a * b)"
| "times_npf NaN y = NaN"
| "times_npf x NaN = NaN"
| "times_npf PInf (Fin b) = (if b = 0 then NaN else if 0 < b then PInf else NInf)"
| "times_npf NInf (Fin b) = (if b = 0 then NaN else if 0 < b then NInf else PInf)"
| "times_npf (Fin a) PInf = (if a = 0 then NaN else if 0 < a then PInf else NInf)"
| "times_npf (Fin a) NInf = (if a = 0 then NaN else if 0 < a then NInf else PInf)"
| "times_npf PInf PInf = PInf"
| "times_npf PInf NInf = NInf"
| "times_npf NInf PInf = NInf"
| "times_npf NInf NInf = PInf"

fun divide_npf :: "npf \<Rightarrow> npf \<Rightarrow> npf" where
  "divide_npf (Fin a) (Fin b) =
     (if b = 0 then (if a = 0 then NaN else if 0 < a then PInf else NInf)
      else Fin (a / b))"
| "divide_npf NaN y = NaN"
| "divide_npf x NaN = NaN"
| "divide_npf (Fin a) PInf = Fin 0"
| "divide_npf (Fin a) NInf = Fin 0"
| "divide_npf PInf (Fin b) = (if 0 \<le> b then PInf else NInf)"
| "divide_npf NInf (Fin b) = (if 0 \<le> b then NInf else PInf)"
| "divide_npf PInf PInf = NaN"
| "divide_npf PInf NInf = NaN"
| "divide_npf NInf PInf = NaN"
| "divide_npf NInf NInf = NaN"

definition inverse_npf :: "npf \<Rightarrow> npf" where
  "inverse_npf x = divide (Fin 1) x"

instance
proof
  fix u v w :: npf
  show "0 + u = u"
    unfolding zero_npf_def by (cases u; simp)
  show "u + v = v + u"
    by (cases u; cases v; simp)
  show "u + v + w = u + (v + w)"
    by (cases u; cases v; cases w; simp)
qed

end

text \<open>\<^verbatim>\<open>np.exp\<close> and \<^verbatim>\<open>np.log(2)\<close>.\<close>

fun np_exp :: "npf \<Rightarrow> npf" where
  "np_exp (Fin a) = Fin (exp a)"
| "np_exp PInf = PInf"
| "np_exp NInf = Fin 0"
| "np_exp NaN = NaN"

definition log2 :: npf where
  "log2 = Fin (ln 2)"

section \<open>Data of the model\<close>

datatype error = KeyError | IndexError | UnboundLocalError | ValueError

type_synonym vec = "real \<times> real \<times> real"

type_synonym fvec = "npf \<times> npf \<times> npf"

text \<open>One row of a parameter table: the columns \<^verbatim>\<open>re\<close>, \<^verbatim>\<open>De\<close>, \<^verbatim>\<open>a\<close>.\<close>

record element_params =
  p_re :: real
  p_De :: real
  p_a :: real

record atom =
  symbol :: string
  position :: vec

text \<open>An image: its atoms in order, and the three rows of its cell matrix.\<close>

record image =
  atoms :: "atom list"
  cell :: "vec \<times> vec \<times> vec"

text \<open>
  The neighbours of one atom: the arrays \<^verbatim>\<open>neighbors\<close> and \<^verbatim>\<open>offsets\<close> of the
  source, which the neighbour-list calculator returns with equal lengths, as one list of
  (index, offset) entries.
\<close>

type_synonym entry = "nat \<times> (int \<times> int \<times> int)"

text \<open>
  The fields of \<^verbatim>\<open>morse_potential\<close> that prediction reads. The neighbour-list store
  is keyed by the hash of an image; the hash is a function of the image's content, so the
  image itself is the key here.
\<close>

record morse_potential =
  params :: "string \<rightharpoonup> element_params"
  combo :: string
  neighborlist :: "image \<rightharpoonup> entry list list"

section \<open>Vectors\<close>

definition vzero :: fvec where
  "vzero = (Fin 0, Fin 0, Fin 0)"

fun vadd :: "fvec \<Rightarrow> fvec \<Rightarrow> fvec" where
  "vadd (x1, y1, z1) (x2, y2, z2) = (x1 + x2, y1 + y2, z1 + z2)"

fun vsub :: "fvec \<Rightarrow> fvec \<Rightarrow> fvec" where
  "vsub (x1, y1, z1) (x2, y2, z2) = (x1 - x2, y1 - y2, z1 - z2)"

text \<open>\<^verbatim>\<open>c[:, np.newaxis] * d\<close> on one row.\<close>

fun vscale :: "npf \<Rightarrow> vec \<Rightarrow> fvec" where
  "vscale c (x, y, z) = (c * Fin x, c * Fin y, c * Fin z)"

text \<open>\<^verbatim>\<open>f.sum(axis=0)\<close>: the sum of the rows, the zero vector for no rows.\<close>

fun rows_sum :: "fvec list \<Rightarrow> fvec" where
  "rows_sum [] = vzero"
| "rows_sum (v # vs) = vadd v (rows_sum vs)"

section \<open>The pairwise kernel\<close>

text \<open>Real vectors: positions, cell rows and displacements, all finite inputs.\<close>

fun radd :: "vec \<Rightarrow> vec \<Rightarrow> vec" where
  "radd (x1, y1, z1) (x2, y2, z2) = (x1 + x2, y1 + y2, z1 + z2)"

fun rsub :: "vec \<Rightarrow> vec \<Rightarrow> vec" where
  "rsub (x1, y1, z1) (x2, y2, z2) = (x1 - x2, y1 - y2, z1 - z2)"

text \<open>One row of \<^verbatim>\<open>np.dot(offsets, cell)\<close>.\<close>

fun dot_cell :: "int \<times> int \<times> int \<Rightarrow> vec \<times> vec \<times> vec \<Rightarrow> vec" where
  "dot_cell (o1, o2, o3) ((ax, ay, az), (bx, by, bz), (cx, cy, cz)) =
     (of_int o1 * ax + of_int o2 * bx + of_int o3 * cx,
      of_int o1 * ay + of_int o2 * by + of_int o3 * cy,
      of_int o1 * az + of_int o2 * bz + of_int o3 * cz)"

text \<open>One row of \<^verbatim>\<open>d = positions[neighbors] + cells - positions[a1]\<close>.\<close>

definition displacement :: "vec list \<Rightarrow> vec \<times> vec \<times> vec \<Rightarrow> nat \<Rightarrow> entry \<Rightarrow> vec" where
  "displacement positions cl a1 e =
     rsub (radd (positions ! fst e) (dot_cell (snd e) cl)) (positions ! a1)"

text \<open>One element of \<^verbatim>\<open>r = np.sqrt((d ** 2).sum(1))\<close>.\<close>

fun norm3 :: "vec \<Rightarrow> real" where
  "norm3 (x, y, z) = sqrt (x * x + y * y + z * z)"

text \<open>
  The row \<^verbatim>\<open>[re, D, sig]\<close> that the first loop of \<^verbatim>\<open>image_pred\<close> builds for one
  atom, with \<^verbatim>\<open>sig = re - np.log(2)/a\<close>.
\<close>

definition element_row :: "element_params \<Rightarrow> fvec" where
  "element_row p = (Fin (p_re p), Fin (p_De p), Fin (p_re p) - log2 / Fin (p_a p))"

fun build_params :: "(string \<rightharpoonup> element_params) \<Rightarrow> string list \<Rightarrow> error + fvec list" where
  "build_params params_dict [] = Inr []"
| "build_params params_dict (element # rest) =
     (case params_dict element of
        None \<Rightarrow> Inl KeyError
      | Some p \<Rightarrow>
          (case build_params params_dict rest of
             Inl e \<Rightarrow> Inl e
           | Inr rows \<Rightarrow> Inr (element_row p # rows)))"

text \<open>
  The pair parameters \<^verbatim>\<open>(re, D, sig)\<close> of atom \<^verbatim>\<open>a1\<close> (row \<open>p1\<close>) and one
  neighbour (row \<open>pn\<close>). Only the well depth of \<^verbatim>\<open>a1\<close> goes through
  \<^verbatim>\<open>np.abs\<close>. For any other rule name neither branch assigns, and the names
  \<^verbatim>\<open>re\<close>, \<^verbatim>\<open>D\<close>, \<^verbatim>\<open>sig\<close> still hold what the first loop left in them: the row
  of the last atom (\<open>leaked\<close>).
\<close>

definition combine :: "string \<Rightarrow> fvec \<Rightarrow> fvec \<Rightarrow> fvec \<Rightarrow> fvec" where
  "combine cmb leaked p1 pn =
     (let re_1 = fst p1; D_1 = \<bar>fst (snd p1)\<bar>; sig_1 = snd (snd p1);
          re_n = fst pn; D_n = fst (snd pn); sig_n = snd (snd pn)
      in if cmb = ''mean'' then
           (Fin 1.682829, Fin 9.975126, Fin 1.682829 - log2 / Fin 1.51511)
         else if cmb = ''yang'' then
           ((re_1 * re_n) * (re_1 + re_n) / (re_1 * re_1 + re_n * re_n),
            (Fin 2 * D_1 * D_n) / (D_1 + D_n),
            (sig_1 * sig_n) * (sig_1 + sig_n) / (sig_1 * sig_1 + sig_n * sig_n))
         else leaked)"

text \<open>The two exponentials differ only in the factor of the second.\<close>

definition morse_energy :: "npf \<Rightarrow> npf \<Rightarrow> npf \<Rightarrow> npf \<Rightarrow> npf" where
  "morse_energy D C r_star re_star =
     D * (np_exp (Fin (- 2) * C * (r_star - re_star))
          - Fin 2 * np_exp (- C * (r_star - re_star)))"

definition morse_force :: "npf \<Rightarrow> npf \<Rightarrow> npf \<Rightarrow> npf \<Rightarrow> npf \<Rightarrow> npf \<Rightarrow> npf" where
  "morse_force D C sig r r_star re_star =
     (Fin 2 * D * C / sig) * (Fin 1 / r)
     * (np_exp (Fin (- 2) * C * (r_star - re_star))
        - np_exp (- C * (r_star - re_star)))"

text \<open>One element of \<^verbatim>\<open>atom_energy\<close> and one row of \<^verbatim>\<open>f\<close>.\<close>

definition pair_energy :: "fvec \<Rightarrow> vec \<Rightarrow> npf" where
  "pair_energy prm d =
     (let re = fst prm; D = fst (snd prm); sig = snd (snd prm);
          r = Fin (norm3 d);
          r_star = r / sig;
          re_star = re / sig;
          C = log2 / (re_star - Fin 1)
      in morse_energy D C r_star re_star)"

definition pair_force :: "fvec \<Rightarrow> vec \<Rightarrow> fvec" where
  "pair_force prm d =
     (let re = fst prm; D = fst (snd prm); sig = snd (snd prm);
          r = Fin (norm3 d);
          r_star = r / sig;
          re_star = re / sig;
          C = log2 / (re_star - Fin 1)
      in vscale (morse_force D C sig r r_star re_star) d)"

text \<open>\<^verbatim>\<open>for a2, f2 in zip(neighbors, f): forces[a2] += f2\<close>\<close>

fun add_contribs :: "fvec list \<Rightarrow> (nat \<times> fvec) list \<Rightarrow> fvec list" where
  "add_contribs forces [] = forces"
| "add_contribs forces ((a2, f2) # rest) =
     add_contribs (forces[a2 := vadd (forces ! a2) f2]) rest"

text \<open>
  The body of the loop over \<^verbatim>\<open>a1\<close>, on the state \<open>(energy, forces)\<close>. Reading
  \<^verbatim>\<open>image_neighbors[a1]\<close> beyond the stored list and \<^verbatim>\<open>positions[neighbors]\<close>
  with an index that is no atom raise \<^verbatim>\<open>IndexError\<close>.
\<close>

definition atom_step ::
  "string \<Rightarrow> fvec list \<Rightarrow> vec list \<Rightarrow> vec \<times> vec \<times> vec \<Rightarrow> entry list list \<Rightarrow> nat
   \<Rightarrow> npf \<times> fvec list \<Rightarrow> error + (npf \<times> fvec list)" where
  "atom_step cmb prms positions cl image_neighbors a1 st =
     (if length image_neighbors \<le> a1 then Inl IndexError
      else
        let entries = image_neighbors ! a1 in
        if \<not> list_all (\<lambda>e. fst e < length positions) entries then Inl IndexError
        else
          let d = map (displacement positions cl a1) entries;
              prm = map (\<lambda>e. combine cmb (last prms) (prms ! a1) (prms ! fst e)) entries;
              atom_energy = map2 pair_energy prm d;
              f = map2 pair_force prm d;
              energy = fst st + sum_list atom_energy;
              forces = (snd st)[a1 := vsub (snd st ! a1) (rows_sum f)]
          in Inr (energy, add_contribs forces (zip (map fst entries) f)))"

fun atoms_loop ::
  "(nat \<Rightarrow> npf \<times> fvec list \<Rightarrow> error + (npf \<times> fvec list)) \<Rightarrow> nat list
   \<Rightarrow> npf \<times> fvec list \<Rightarrow> error + (npf \<times> fvec list)" where
  "atoms_loop step [] st = Inr st"
| "atoms_loop step (a1 # rest) st =
     (case step a1 st of
        Inl e \<Rightarrow> Inl e
      | Inr st' \<Rightarrow> atoms_loop step rest st')"

definition get_neighbors :: "(image \<rightharpoonup> entry list list) \<Rightarrow> image \<Rightarrow> error + entry list list" where
  "get_neighbors nl image_hash =
     (case nl image_hash of None \<Rightarrow> Inl KeyError | Some image_neighbors \<Rightarrow> Inr image_neighbors)"

text \<open>
  \<^verbatim>\<open>image_pred\<close>. After the first loop the rows are stacked with
  \<^verbatim>\<open>np.vstack(np.array(params))\<close>, which raises \<^verbatim>\<open>ValueError\<close> when there is
  no row, that is for an image with no atoms.
\<close>

definition image_pred :: "morse_potential \<Rightarrow> image \<Rightarrow> error + (npf \<times> fvec list \<times> nat)" where
  "image_pred self img =
     (case build_params (params self) (map symbol (atoms img)) of
        Inl e \<Rightarrow> Inl e
      | Inr prms \<Rightarrow>
          if prms = [] then Inl ValueError
          else
            let natoms = length (atoms img) in
            (case get_neighbors (neighborlist self) img of
               Inl e \<Rightarrow> Inl e
             | Inr image_neighbors \<Rightarrow>
                 (case atoms_loop
                         (atom_step (combo self) prms (map position (atoms img)) (cell img)
                            image_neighbors)
                         [0..<natoms] (Fin 0, replicate natoms vzero) of
                    Inl e \<Rightarrow> Inl e
                  | Inr (energy, forces) \<Rightarrow> Inr (energy, forces, natoms))))"

section \<open>The batch predictor\<close>

fun morse_loop ::
  "morse_potential \<Rightarrow> image list \<Rightarrow> npf list \<times> fvec list list \<times> nat list
   \<Rightarrow> error + (npf list \<times> fvec list list \<times> nat list)" where
  "morse_loop self [] acc = Inr acc"
| "morse_loop self (img # rest) (predicted_energies, predicted_forces, num_atoms) =
     (case image_pred self img of
        Inl e \<Rightarrow> Inl e
      | Inr (energy, forces, natoms) \<Rightarrow>
          morse_loop self rest
            (predicted_energies @ [energy], predicted_forces @ [forces], num_atoms @ [natoms]))"

definition morse_pred ::
  "morse_potential \<Rightarrow> image list \<Rightarrow> error + (npf list \<times> fvec list list \<times> nat list)" where
  "morse_pred self data = morse_loop self data ([], [], [])"

section \<open>The parameter store\<close>

text \<open>
  The text that \<^verbatim>\<open>get_params\<close> prints when a table cannot be read. The literal is
  not an f-string, so the braces are printed as they are; the literal runs over two
  lines, so it holds a line break and the sixteen spaces that indent its second line.
\<close>

definition diagnostic :: string where
  "diagnostic =
     ''Morse parameters not available for {elem}, requires''
     @ CHR 0x0A # replicate 16 (CHR '' '') @ ''manual definition''"

text \<open>
  \<open>tables\<close> holds the first row of each readable file
  \<^verbatim>\<open>morse_params/{elem}{elem}.csv\<close>; any failure to read is \<open>None\<close>. The state of
  the loop is the dictionary \<^verbatim>\<open>params\<close>, the local \<^verbatim>\<open>element_params\<close> (\<open>None\<close>
  while it is unbound) and the lines printed so far. The assignment
  \<^verbatim>\<open>params[elem] = element_params\<close> follows the \<^verbatim>\<open>try\<close> statement, so it runs
  after a failed read too.
\<close>

fun get_params_loop ::
  "(string \<rightharpoonup> element_params) \<Rightarrow> string list
   \<Rightarrow> (string \<rightharpoonup> element_params) \<times> element_params option \<times> string list
   \<Rightarrow> error + ((string \<rightharpoonup> element_params) \<times> string list)" where
  "get_params_loop tables [] (prm, element_params, out) = Inr (prm, out)"
| "get_params_loop tables (elem # rest) (prm, element_params, out) =
     (let (element_params', out') =
            (case tables elem of
               Some row \<Rightarrow> (Some row, out)
             | None \<Rightarrow> (element_params, out @ [diagnostic]))
      in case element_params' of
           None \<Rightarrow> Inl UnboundLocalError
         | Some row \<Rightarrow> get_params_loop tables rest (prm(elem \<mapsto> row), element_params', out'))"

definition get_params ::
  "(string \<rightharpoonup> element_params) \<Rightarrow> string list
   \<Rightarrow> error + ((string \<rightharpoonup> element_params) \<times> string list)" where
  "get_params tables elements = get_params_loop tables elements (Map.empty, None, [])"

section \<open>Example configurations\<close>

text \<open>
  A model built with the rule \<^verbatim>\<open>mean\<close> and a table for \<^verbatim>\<open>Cu\<close> only, and four
  images without periodic cell: one \<^verbatim>\<open>Cu\<close> atom, one \<^verbatim>\<open>H\<close> atom, two \<^verbatim>\<open>Cu\<close>
  atoms at the same position, and two \<^verbatim>\<open>Cu\<close> atoms at the equilibrium distance of
  the rule. In the two-atom images each atom is the neighbour of the other.
\<close>

definition zero_cell :: "vec \<times> vec \<times> vec" where
  "zero_cell = ((0, 0, 0), (0, 0, 0), (0, 0, 0))"

definition lone_cu :: image where
  "lone_cu = \<lparr>atoms = [\<lparr>symbol = ''Cu'', position = (0, 0, 0)\<rparr>], cell = zero_cell\<rparr>"

definition lone_h :: image where
  "lone_h = \<lparr>atoms = [\<lparr>symbol = ''H'', position = (0, 0, 0)\<rparr>], cell = zero_cell\<rparr>"

definition cu_overlap :: image where
  "cu_overlap =
     \<lparr>atoms = [\<lparr>symbol = ''Cu'', position = (0, 0, 0)\<rparr>,
               \<lparr>symbol = ''Cu'', position = (0, 0, 0)\<rparr>],
      cell = zero_cell\<rparr>"

definition cu_dimer :: image where
  "cu_dimer =
     \<lparr>atoms = [\<lparr>symbol = ''Cu'', position = (0, 0, 0)\<rparr>,
               \<lparr>symbol = ''Cu'', position = (1.682829, 0, 0)\<rparr>],
      cell = zero_cell\<rparr>"

definition cu_model :: morse_potential where
  "cu_model =
     \<lparr>params = [''Cu'' \<mapsto> \<lparr>p_re = 2, p_De = 1, p_a = 1\<rparr>],
      combo = ''mean'',
      neighborlist =
        [lone_cu \<mapsto> [[]], lone_h \<mapsto> [[]],
         cu_overlap \<mapsto> [[(1, (0, 0, 0))], [(0, (0, 0, 0))]],
         cu_dimer \<mapsto> [[(1, (0, 0, 0))], [(0, (0, 0, 0))]]]\<rparr>"

text \<open>
  A second model for an image of two \<^verbatim>\<open>Cu\<close> atoms further apart than the
  equilibrium distance, each the neighbour of the other.
\<close>

definition cu_stretched :: image where
  "cu_stretched =
     \<lparr>atoms = [\<lparr>symbol = ''Cu'', position = (0, 0, 0)\<rparr>,
               \<lparr>symbol = ''Cu'', position = (2, 0, 0)\<rparr>],
      cell = zero_cell\<rparr>"

definition far_model :: morse_potential where
  "far_model =
     \<lparr>params = [''Cu'' \<mapsto> \<lparr>p_re = 2, p_De = 1, p_a = 1\<rparr>],
      combo = ''mean'',
      neighborlist = [cu_stretched \<mapsto> [[(1, (0, 0, 0))], [(0, (0, 0, 0))]]]\<rparr>"

section \<open>Names used in the proofs\<close>

text \<open>The three constants of the rule \<^verbatim>\<open>mean\<close>, as reals.\<close>

definition mean_re :: real where
  "mean_re = 1.682829"

definition mean_D :: real where
  "mean_D = 9.975126"

definition mean_sig :: real where
  "mean_sig = 1.682829 - ln 2 / 1.51511"

text \<open>The vector whose three components are NaN.\<close>

definition vnan :: fvec where
  "vnan = (NaN, NaN, NaN)"

text \<open>A vector of three finite numbers.\<close>

fun vfin :: "fvec \<Rightarrow> bool" where
  "vfin (x, y, z) = (finite_npf x \<and> finite_npf y \<and> finite_npf z)"

text \<open>The rows of \<^verbatim>\<open>f\<close> in the pass for atom \<^verbatim>\<open>a1\<close>.\<close>

definition entry_forces ::
  "string \<Rightarrow> fvec list \<Rightarrow> vec list \<Rightarrow> vec \<times> vec \<times> vec \<Rightarrow> entry list \<Rightarrow> nat \<Rightarrow> fvec list" where
  "entry_forces cmb prms positions cl entries a1 =
     map (\<lambda>en. pair_force (combine cmb (last prms) (prms ! a1) (prms ! fst en))
                  (displacement positions cl a1 en)) entries"

section \<open>Arithmetic of the extended numbers\<close>

declare zero_npf_def [simp]

lemma Fin_minus [simp]: "Fin a - Fin b = Fin (a - b)"
  by (simp add: minus_npf_def)

lemma minus_Fin_zero [simp]: "x - Fin 0 = x"
  by (cases x) (simp_all add: minus_npf_def)

lemma plus_Fin_zero [simp]: "x + Fin 0 = x" "Fin 0 + x = x"
  by (cases x; simp)+

section \<open>The combination rule\<close>

text \<open>
  Where the well depth is positive the rule \<^verbatim>\<open>yang\<close> returns the triple of two equal
  rows as it is (the three numbers nonzero, so that no quotient is \<open>0/0\<close>).
\<close>

lemma yang_identity_positive_depth:
  assumes "re1 \<noteq> 0" and "0 < D1" and "sig1 \<noteq> 0"
  shows "combine ''yang'' leaked (Fin re1, Fin D1, Fin sig1) (Fin re1, Fin D1, Fin sig1)
         = (Fin re1, Fin D1, Fin sig1)"
proof -
  have "re1 * re1 + re1 * re1 \<noteq> 0" "sig1 * sig1 + sig1 * sig1 \<noteq> 0" "D1 + D1 \<noteq> 0"
    using assms by simp_all
  moreover have "re1 * re1 * (re1 + re1) / (re1 * re1 + re1 * re1) = re1"
    using assms by (simp add: field_simps)
  moreover have "sig1 * sig1 * (sig1 + sig1) / (sig1 * sig1 + sig1 * sig1) = sig1"
    using assms by (simp add: field_simps)
  moreover have "2 * D1 * D1 / (D1 + D1) = D1"
    using assms by (simp add: field_simps)
  ultimately show ?thesis
    using assms by (simp add: combine_def Let_def)
qed

text \<open>
  Claim C7. Under the rule \<^verbatim>\<open>yang\<close> two atoms with the same parameters should get
  their own triple back. For two atoms of one element whose table holds a negative well
  depth they do not: the row of the element is \<open>(1, -1, 1 - ln 2)\<close>, the code takes
  \<^verbatim>\<open>D_1 = np.abs(-1) = 1\<close> for atom \<^verbatim>\<open>a1\<close> and \<^verbatim>\<open>D_n = -1\<close> for the
  neighbour, and \<open>D = 2 D_1 D_n / (D_1 + D_n) = -2/0\<close> is minus infinity.
\<close>

theorem yang_same_element_negative_depth:
  "element_row \<lparr>p_re = 1, p_De = - 1, p_a = 1\<rparr> = (Fin 1, Fin (- 1), Fin (1 - ln 2))
   \<and> fst (snd (combine ''yang'' leaked
         (element_row \<lparr>p_re = 1, p_De = - 1, p_a = 1\<rparr>)
         (element_row \<lparr>p_re = 1, p_De = - 1, p_a = 1\<rparr>))) = NInf"
  by (simp add: combine_def element_row_def log2_def Let_def)

text \<open>
  Claim C1. The pair well depth should depend on the absolute values of both well
  depths only. Under \<^verbatim>\<open>yang\<close> the code takes the absolute value for atom \<^verbatim>\<open>a1\<close>
  and the signed table value for the neighbour: with \<open>De = 1\<close> for \<^verbatim>\<open>a1\<close>, a
  neighbour with \<open>De = -2\<close> gives \<open>D = 4\<close>, a neighbour with \<open>De = 2\<close> gives
  \<open>D = 4/3\<close>, and so does the same pair seen from the other atom.
\<close>

theorem yang_depth_keeps_sign_of_neighbor:
  "fst (snd (combine ''yang'' leaked
       (element_row \<lparr>p_re = 1, p_De = 1, p_a = 1\<rparr>)
       (element_row \<lparr>p_re = 1, p_De = - 2, p_a = 1\<rparr>))) = Fin 4
   \<and> fst (snd (combine ''yang'' leaked
       (element_row \<lparr>p_re = 1, p_De = 1, p_a = 1\<rparr>)
       (element_row \<lparr>p_re = 1, p_De = 2, p_a = 1\<rparr>))) = Fin (4 / 3)
   \<and> fst (snd (combine ''yang'' leaked
       (element_row \<lparr>p_re = 1, p_De = - 2, p_a = 1\<rparr>)
       (element_row \<lparr>p_re = 1, p_De = 1, p_a = 1\<rparr>))) = Fin (4 / 3)"
  by (simp add: combine_def element_row_def Let_def)

section \<open>Loading the parameters\<close>

text \<open>
  Claim C3. A missing table should give a diagnostic for that element, no crash, and no
  entry made of another element's parameters. With a table for \<^verbatim>\<open>Cu\<close> only:
  asking for \<^verbatim>\<open>H\<close> alone ends in \<^verbatim>\<open>UnboundLocalError\<close>, and asking for
  \<^verbatim>\<open>Cu\<close> and \<^verbatim>\<open>H\<close> returns a dictionary that gives \<^verbatim>\<open>H\<close> the row of
  \<^verbatim>\<open>Cu\<close>, after printing a text that does not name the element.
\<close>

theorem get_params_missing_table:
  "get_params [''Cu'' \<mapsto> row] [''H''] = Inl UnboundLocalError
   \<and> get_params [''Cu'' \<mapsto> row] [''Cu'', ''H'']
       = Inr ([''Cu'' \<mapsto> row, ''H'' \<mapsto> row], [diagnostic])"
  by (simp add: get_params_def)

section \<open>The loop over the atoms\<close>

lemma vsub_vzero [simp]: "vsub v vzero = v"
  by (cases v) (simp add: vzero_def)

lemma map2_same: "map2 f (map g xs) (map h xs) = map (\<lambda>x. f (g x) (h x)) xs"
  by (induction xs) simp_all

lemma length_add_contribs [simp]: "length (add_contribs forces cs) = length forces"
  by (induction forces cs rule: add_contribs.induct) simp_all

lemma build_params_ok:
  "\<forall>s \<in> set syms. s \<in> dom pd \<Longrightarrow>
   build_params pd syms = Inr (map (\<lambda>s. element_row (the (pd s))) syms)"
  by (induction syms) auto

lemma build_params_length:
  "build_params pd syms = Inr prms \<Longrightarrow> length prms = length syms"
  by (induction syms arbitrary: prms) (auto split: option.splits sum.splits)

lemma atom_step_empty:
  assumes "a1 < length image_neighbors" and "image_neighbors ! a1 = []"
  shows "atom_step cmb prms positions cl image_neighbors a1 (energy, forces) = Inr (energy, forces)"
  using assms by (simp add: atom_step_def Let_def)

lemma atoms_loop_empty:
  assumes "\<forall>a1 \<in> set xs. a1 < length image_neighbors \<and> image_neighbors ! a1 = []"
  shows "atoms_loop (atom_step cmb prms positions cl image_neighbors) xs (energy, forces)
         = Inr (energy, forces)"
  using assms by (induction xs) (simp_all add: atom_step_empty)

lemma atom_step_result:
  assumes "atom_step cmb prms positions cl nl a1 (energy, forces) = Inr (energy', forces')"
  shows "energy' = energy + (\<Sum>en\<leftarrow>nl ! a1.
            pair_energy (combine cmb (last prms) (prms ! a1) (prms ! fst en))
              (displacement positions cl a1 en))"
    and "length forces' = length forces"
  using assms by (auto simp: atom_step_def Let_def map2_same split: if_splits)

lemma atoms_loop_energy:
  assumes "atoms_loop (atom_step cmb prms positions cl nl) xs (energy, forces) = Inr (energy', forces')"
  shows "energy' = energy + (\<Sum>a1\<leftarrow>xs. \<Sum>en\<leftarrow>nl ! a1.
            pair_energy (combine cmb (last prms) (prms ! a1) (prms ! fst en))
              (displacement positions cl a1 en))"
  using assms
proof (induction xs arbitrary: energy forces)
  case Nil
  then show ?case by simp
next
  case (Cons a1 rest)
  then obtain e1 f1 where step: "atom_step cmb prms positions cl nl a1 (energy, forces) = Inr (e1, f1)"
    and rest: "atoms_loop (atom_step cmb prms positions cl nl) rest (e1, f1) = Inr (energy', forces')"
    by (auto split: sum.splits)
  from Cons.IH [OF rest] atom_step_result(1) [OF step] show ?case
    by (simp add: add.assoc)
qed

lemma atoms_loop_length:
  assumes "atoms_loop (atom_step cmb prms positions cl nl) xs (energy, forces) = Inr (energy', forces')"
  shows "length forces' = length forces"
  using assms
proof (induction xs arbitrary: energy forces)
  case Nil
  then show ?case by simp
next
  case (Cons a1 rest)
  then obtain e1 f1 where step: "atom_step cmb prms positions cl nl a1 (energy, forces) = Inr (e1, f1)"
    and rest: "atoms_loop (atom_step cmb prms positions cl nl) rest (e1, f1) = Inr (energy', forces')"
    by (auto split: sum.splits)
  from Cons.IH [OF rest] atom_step_result(2) [OF step] show ?case by simp
qed

lemma atoms_loop_returns:
  assumes "\<forall>a1 \<in> set xs. a1 < length nl \<and> (\<forall>en \<in> set (nl ! a1). fst en < length positions)"
  shows "\<exists>st'. atoms_loop (atom_step cmb prms positions cl nl) xs st = Inr st'"
  using assms
proof (induction xs arbitrary: st)
  case Nil
  then show ?case by simp
next
  case (Cons a1 rest)
  then have "\<exists>st1. atom_step cmb prms positions cl nl a1 st = Inr st1"
    by (simp add: atom_step_def Let_def list_all_iff)
  then obtain st1 where "atom_step cmb prms positions cl nl a1 st = Inr st1" ..
  with Cons show ?case by simp
qed

lemma image_pred_no_atoms: "atoms img = [] \<Longrightarrow> image_pred self img = Inl ValueError"
  by (simp add: image_pred_def)

lemma image_pred_unfold:
  assumes "build_params (params self) (map symbol (atoms img)) = Inr prms"
    and "neighborlist self img = Some nl"
    and "atoms img \<noteq> []"
  shows "image_pred self img =
     (case atoms_loop (atom_step (combo self) prms (map position (atoms img)) (cell img) nl)
             [0..<length (atoms img)] (Fin 0, replicate (length (atoms img)) vzero) of
        Inl e \<Rightarrow> Inl e
      | Inr (energy, forces) \<Rightarrow> Inr (energy, forces, length (atoms img)))"
proof -
  from build_params_length [OF assms(1)] assms(3) have "prms \<noteq> []" by auto
  with assms(1,2) show ?thesis
    by (simp add: image_pred_def get_neighbors_def Let_def)
qed

lemma image_pred_returns:
  assumes "\<forall>a \<in> set (atoms img). symbol a \<in> dom (params self)"
    and "neighborlist self img = Some nl"
    and "length (atoms img) \<le> length nl"
    and "\<forall>a1 < length (atoms img). \<forall>en \<in> set (nl ! a1). fst en < length (atoms img)"
    and "atoms img \<noteq> []"
  shows "\<exists>energy forces. image_pred self img = Inr (energy, forces, length (atoms img))"
proof -
  from assms(1) have bp: "build_params (params self) (map symbol (atoms img))
      = Inr (map (\<lambda>s. element_row (the (params self s))) (map symbol (atoms img)))"
    by (intro build_params_ok) auto
  have "\<forall>a1 \<in> set [0..<length (atoms img)]. a1 < length nl
          \<and> (\<forall>en \<in> set (nl ! a1). fst en < length (map position (atoms img)))"
    using assms(3,4) by auto
  from atoms_loop_returns [OF this] obtain st' where
    "atoms_loop (atom_step (combo self) (map (\<lambda>s. element_row (the (params self s))) (map symbol (atoms img)))
        (map position (atoms img)) (cell img) nl)
        [0..<length (atoms img)] (Fin 0, replicate (length (atoms img)) vzero) = Inr st'"
    by blast
  then show ?thesis
    by (cases st') (simp add: image_pred_unfold [OF bp assms(2,5)])
qed

lemma image_pred_parts:
  assumes "image_pred self img = Inr (energy, forces, natoms)"
  obtains prms nl where "build_params (params self) (map symbol (atoms img)) = Inr prms"
    and "neighborlist self img = Some nl"
    and "atoms_loop (atom_step (combo self) prms (map position (atoms img)) (cell img) nl)
             [0..<length (atoms img)] (Fin 0, replicate (length (atoms img)) vzero)
         = Inr (energy, forces)"
    and "natoms = length (atoms img)"
proof (cases "build_params (params self) (map symbol (atoms img))")
  case (Inl e)
  with assms show ?thesis by (simp add: image_pred_def)
next
  case (Inr prms)
  have atoms: "atoms img \<noteq> []"
    using assms image_pred_no_atoms [of img self] by auto
  with build_params_length [OF Inr] have rows: "prms \<noteq> []" by auto
  show ?thesis
  proof (cases "neighborlist self img")
    case None
    with assms Inr rows show ?thesis by (simp add: image_pred_def get_neighbors_def)
  next
    case (Some nl)
    from assms show ?thesis
      unfolding image_pred_unfold [OF Inr Some atoms]
      by (auto split: sum.splits intro: that [OF Inr Some])
  qed
qed

text \<open>
  Claim C10. An atom with an empty neighbour list leaves the energy and every force
  accumulator as they are (the first part: one pass of the loop body returns the state
  it was given). For an image in which every neighbour list is empty, whose elements all
  have parameters, \<^verbatim>\<open>image_pred\<close> returns the energy \<open>0.0\<close>, one zero vector per
  atom, and the number of atoms. The image has at least one atom: for an image with no
  atoms \<^verbatim>\<open>np.vstack\<close> raises \<^verbatim>\<open>ValueError\<close> before the loop.
\<close>

theorem empty_neighbor_list_contributes_nothing:
  "(a1 < length image_neighbors \<longrightarrow> image_neighbors ! a1 = [] \<longrightarrow>
      atom_step cmb prms positions cl image_neighbors a1 (energy, forces) = Inr (energy, forces))
   \<and> (atoms img \<noteq> [] \<longrightarrow>
        (\<forall>a \<in> set (atoms img). symbol a \<in> dom (params self)) \<longrightarrow>
        neighborlist self img = Some nl \<longrightarrow>
        length (atoms img) \<le> length nl \<longrightarrow>
        (\<forall>a < length (atoms img). nl ! a = []) \<longrightarrow>
        image_pred self img
          = Inr (Fin 0, replicate (length (atoms img)) vzero, length (atoms img)))"
proof (intro conjI impI)
  assume "a1 < length image_neighbors" and "image_neighbors ! a1 = []"
  then show "atom_step cmb prms positions cl image_neighbors a1 (energy, forces)
             = Inr (energy, forces)"
    by (rule atom_step_empty)
next
  assume atoms: "atoms img \<noteq> []"
    and dom: "\<forall>a \<in> set (atoms img). symbol a \<in> dom (params self)"
    and nl: "neighborlist self img = Some nl"
    and len: "length (atoms img) \<le> length nl"
    and empty: "\<forall>a < length (atoms img). nl ! a = []"
  from dom have bp: "build_params (params self) (map symbol (atoms img))
      = Inr (map (\<lambda>s. element_row (the (params self s))) (map symbol (atoms img)))"
    by (intro build_params_ok) auto
  have "\<forall>a \<in> set [0..<length (atoms img)]. a < length nl \<and> nl ! a = []"
    using len empty by auto
  from atoms_loop_empty [OF this]
  show "image_pred self img
          = Inr (Fin 0, replicate (length (atoms img)) vzero, length (atoms img))"
    by (simp add: image_pred_unfold [OF bp nl atoms])
qed

theorem empty_neighbor_list_contributes_nothing_witness:
  "atom_step ''yang'' [] [] zero_cell [[]] 0 (Fin 3, [(Fin 1, PInf, NaN)])
     = Inr (Fin 3, [(Fin 1, PInf, NaN)])
   \<and> image_pred cu_model lone_cu = Inr (Fin 0, [vzero], 1)"
  using empty_neighbor_list_contributes_nothing
    [of 0 "[[]]" "''yang''" "[]" "[]" zero_cell "Fin 3" "[(Fin 1, PInf, NaN)]" lone_cu cu_model "[[]]"]
  by (simp add: cu_model_def lone_cu_def lone_h_def cu_overlap_def cu_dimer_def)

section \<open>The batch predictor, proved\<close>

lemma image_pred_natoms:
  "image_pred self img = Inr (energy, forces, natoms) \<Longrightarrow> natoms = length (atoms img)"
  by (auto simp: image_pred_def Let_def split: sum.splits prod.splits if_splits)

lemma morse_loop_all_ok:
  assumes "\<forall>img \<in> set data. \<not> isl (image_pred self img)"
  shows "morse_loop self data (pe, pf, na) =
           Inr (pe @ map (\<lambda>img. fst (projr (image_pred self img))) data,
                pf @ map (\<lambda>img. fst (snd (projr (image_pred self img)))) data,
                na @ map (\<lambda>img. snd (snd (projr (image_pred self img)))) data)"
  using assms
proof (induction data arbitrary: pe pf na)
  case Nil
  then show ?case by simp
next
  case (Cons img rest)
  then obtain energy forces natoms where "image_pred self img = Inr (energy, forces, natoms)"
    by (cases "image_pred self img") auto
  with Cons show ?case by simp
qed

lemma morse_loop_first_failure:
  assumes "\<forall>img \<in> set pre. \<not> isl (image_pred self img)"
    and "image_pred self bad = Inl e"
  shows "morse_loop self (pre @ bad # post) (pe, pf, na) = Inl e"
  using assms
proof (induction pre arbitrary: pe pf na)
  case Nil
  then show ?case by simp
next
  case (Cons img rest)
  then obtain energy forces natoms where "image_pred self img = Inr (energy, forces, natoms)"
    by (cases "image_pred self img") auto
  with Cons show ?case by simp
qed

lemma lone_cu_pred: "image_pred cu_model lone_cu = Inr (Fin 0, [vzero], 1)"
  by (simp add: image_pred_def cu_model_def lone_cu_def lone_h_def cu_overlap_def cu_dimer_def
      get_neighbors_def atom_step_def Let_def vzero_def)

lemma lone_h_pred: "image_pred cu_model lone_h = Inl KeyError"
  by (simp add: image_pred_def cu_model_def lone_h_def)

text \<open>
  Claim C9. When \<^verbatim>\<open>image_pred\<close> returns for every configuration of the batch,
  \<^verbatim>\<open>morse_pred\<close> returns three lists as long as the batch; at every index the
  energy, the forces and the atom count are those \<^verbatim>\<open>image_pred\<close> returns for the
  configuration at that index, and the atom count is the number of its atoms.
\<close>

theorem morse_pred_aligned:
  assumes "\<forall>img \<in> set data. \<not> isl (image_pred self img)"
  shows "\<exists>es fs ns. morse_pred self data = Inr (es, fs, ns)
           \<and> length es = length data \<and> length fs = length data \<and> length ns = length data
           \<and> (\<forall>i < length data.
                 image_pred self (data ! i) = Inr (es ! i, fs ! i, ns ! i)
                 \<and> ns ! i = length (atoms (data ! i)))"
proof -
  let ?es = "map (\<lambda>img. fst (projr (image_pred self img))) data"
  let ?fs = "map (\<lambda>img. fst (snd (projr (image_pred self img)))) data"
  let ?ns = "map (\<lambda>img. snd (snd (projr (image_pred self img)))) data"
  have run: "morse_pred self data = Inr (?es, ?fs, ?ns)"
    using morse_loop_all_ok [OF assms, of "[]" "[]" "[]"] by (simp add: morse_pred_def)
  have each: "image_pred self (data ! i) = Inr (?es ! i, ?fs ! i, ?ns ! i)
              \<and> ?ns ! i = length (atoms (data ! i))" if "i < length data" for i
  proof -
    from that assms have "\<not> isl (image_pred self (data ! i))" by simp
    then obtain energy forces natoms
      where r: "image_pred self (data ! i) = Inr (energy, forces, natoms)"
      by (cases "image_pred self (data ! i)") auto
    with that image_pred_natoms [OF r] show ?thesis by simp
  qed
  have lens: "length ?es = length data" "length ?fs = length data" "length ?ns = length data"
    by simp_all
  from run lens each show ?thesis by blast
qed

theorem morse_pred_aligned_witness:
  "\<exists>es fs ns. morse_pred cu_model [lone_cu, lone_cu] = Inr (es, fs, ns)
     \<and> length es = 2 \<and> length fs = 2 \<and> length ns = 2
     \<and> (\<forall>i < 2. image_pred cu_model ([lone_cu, lone_cu] ! i) = Inr (es ! i, fs ! i, ns ! i)
                 \<and> ns ! i = length (atoms ([lone_cu, lone_cu] ! i)))"
  using morse_pred_aligned [of "[lone_cu, lone_cu]" cu_model] lone_cu_pred
  by (simp add: numeral_2_eq_2)

text \<open>
  Claim C4, as stated, asks that a configuration whose prediction fails leaves the rest
  of the batch standing. It does not: \<^verbatim>\<open>image_pred\<close> returns for the lone \<^verbatim>\<open>Cu\<close>
  atom, and the batch of that image followed by the \<^verbatim>\<open>H\<close> atom, for which the model
  has no parameters, ends in \<^verbatim>\<open>KeyError\<close> with no result at all.
\<close>

theorem morse_pred_not_isolating:
  "image_pred cu_model lone_cu = Inr (Fin 0, [vzero], 1)
   \<and> morse_pred cu_model [lone_cu, lone_h] = Inl KeyError"
  using lone_cu_pred lone_h_pred by (simp add: morse_pred_def)

text \<open>
  Claim C4, amended. \<^verbatim>\<open>morse_pred\<close> has no handler around \<^verbatim>\<open>image_pred\<close>: the
  error of the first configuration that fails ends the whole batch, and nothing is
  returned for the other configurations.
\<close>

theorem morse_pred_aborts_at_first_failure:
  assumes "i < length data"
    and "image_pred self (data ! i) = Inl e"
    and "\<forall>j < i. \<not> isl (image_pred self (data ! j))"
  shows "morse_pred self data = Inl e"
proof -
  have split: "data = take i data @ data ! i # drop (Suc i) data"
    using assms(1) by (simp add: id_take_nth_drop)
  have "\<forall>img \<in> set (take i data). \<not> isl (image_pred self img)"
    using assms(1,3) by (auto simp: in_set_conv_nth)
  from morse_loop_first_failure [OF this assms(2), of "drop (Suc i) data" "[]" "[]" "[]"] split
  show ?thesis by (simp add: morse_pred_def)
qed

theorem morse_pred_aborts_at_first_failure_witness:
  "morse_pred cu_model [lone_cu, lone_h, lone_cu] = Inl KeyError"
  using morse_pred_aborts_at_first_failure [of 1 "[lone_cu, lone_h, lone_cu]" cu_model KeyError]
    lone_cu_pred lone_h_pred by simp

section \<open>Pairs at the equilibrium distance\<close>

lemma mean_triple:
  "combine ''mean'' leaked p1 pn = (Fin mean_re, Fin mean_D, Fin mean_sig)"
  by (simp add: combine_def Let_def log2_def mean_re_def mean_D_def mean_sig_def)

lemma mean_sig_pos: "0 < mean_sig"
proof -
  have "ln (2::real) / 1.51511 < 1 / 1.51511"
    using ln_2_less_1 by (simp add: divide_strict_right_mono)
  also have "\<dots> < (1.682829::real)" by simp
  finally show ?thesis by (simp add: mean_sig_def)
qed

lemma mean_sig_less: "mean_sig < mean_re"
proof -
  have "0 < ln (2::real)" by (simp add: ln_gt_zero)
  then have "0 < ln (2::real) / 1.51511" by simp
  then show ?thesis unfolding mean_sig_def mean_re_def by linarith
qed

lemma mean_facts [simp]: "mean_sig \<noteq> 0" "mean_re \<noteq> mean_sig" "mean_re \<noteq> 0" "0 < mean_re"
  using mean_sig_pos mean_sig_less by simp_all

lemma pair_energy_equilibrium:
  assumes "s \<noteq> 0" and "re0 \<noteq> s" and "norm3 d = re0"
  shows "pair_energy (Fin re0, Fin D0, Fin s) d = Fin (- D0)"
  using assms by (simp add: pair_energy_def morse_energy_def Let_def log2_def)

lemma pair_force_equilibrium:
  assumes "s \<noteq> 0" and "re0 \<noteq> s" and "re0 \<noteq> 0" and "norm3 d = re0"
  shows "pair_force (Fin re0, Fin D0, Fin s) d = vzero"
  using assms by (cases d) (simp add: pair_force_def morse_force_def Let_def log2_def vzero_def)

lemma norm3_x [simp]: "norm3 (x, 0, 0) = \<bar>x\<bar>"
  by simp

lemma cu_dimer_disp:
  "displacement (map position (atoms cu_dimer)) (cell cu_dimer) 0 (Suc 0, (0, 0, 0)) = (mean_re, 0, 0)"
  "displacement (map position (atoms cu_dimer)) (cell cu_dimer) (Suc 0) (0, (0, 0, 0)) = (- mean_re, 0, 0)"
  by (simp_all add: cu_dimer_def displacement_def zero_cell_def mean_re_def)

lemma norm3_mean_re: "norm3 (mean_re, 0, 0) = mean_re" "norm3 (- mean_re, 0, 0) = mean_re"
  by (simp_all add: mean_re_def del: norm3.simps)

lemma mean_pair_energy:
  "norm3 d = mean_re \<Longrightarrow> pair_energy (combine ''mean'' leaked p1 pn) d = Fin (- mean_D)"
  unfolding mean_triple by (rule pair_energy_equilibrium) simp_all

lemma mean_pair_force:
  "norm3 d = mean_re \<Longrightarrow> pair_force (combine ''mean'' leaked p1 pn) d = vzero"
  unfolding mean_triple by (rule pair_force_equilibrium) simp_all

lemma mean_dimer_terms:
  "pair_energy (combine ''mean'' leaked p1 pn) (mean_re, 0, 0) = Fin (- mean_D)"
  "pair_energy (combine ''mean'' leaked p1 pn) (- mean_re, 0, 0) = Fin (- mean_D)"
  "pair_force (combine ''mean'' leaked p1 pn) (mean_re, 0, 0) = vzero"
  "pair_force (combine ''mean'' leaked p1 pn) (- mean_re, 0, 0) = vzero"
  by (simp_all only: mean_pair_energy mean_pair_force norm3_mean_re)

lemma pair_energy_unfolded:
  "pair_energy prm d =
     (let re = fst prm; D = fst (snd prm); sig = snd (snd prm);
          r = Fin (norm3 d);
          r_star = r / sig;
          re_star = re / sig;
          C = log2 / (re_star - Fin 1)
      in D * (np_exp (Fin (- 2) * C * (r_star - re_star))
              - Fin 2 * np_exp (- C * (r_star - re_star))))"
  by (simp add: pair_energy_def morse_energy_def)

text \<open>
  Claim C8. For a neighbour pair whose distance equals the combined equilibrium distance
  \<open>re\<close>, the pair energy is \<open>-D\<close> and the force contribution is the zero vector,
  with \<open>(re, D, sig)\<close> the triple of the active combination rule. The triple is
  finite, and \<open>sig\<close>, \<open>re - sig\<close> and \<open>re\<close> are nonzero, so that \<open>r*\<close>,
  \<open>C\<close> and \<open>1/r\<close> are defined.
\<close>

theorem equilibrium_pair:
  assumes "combine cmb leaked p1 pn = (Fin re0, Fin D0, Fin s)"
    and "s \<noteq> 0" and "re0 \<noteq> s" and "re0 \<noteq> 0" and "norm3 d = re0"
  shows "pair_energy (combine cmb leaked p1 pn) d = Fin (- D0)
         \<and> pair_force (combine cmb leaked p1 pn) d = vzero"
  using assms by (simp add: pair_energy_equilibrium pair_force_equilibrium)

theorem equilibrium_pair_witness:
  "pair_energy (combine ''mean'' vzero vzero vzero) (1.682829, 0, 0) = Fin (- 9.975126)
   \<and> pair_force (combine ''mean'' vzero vzero vzero) (1.682829, 0, 0) = vzero"
proof -
  have "norm3 (mean_re, 0, 0) = mean_re"
    by (simp add: mean_re_def del: norm3.simps)
  from equilibrium_pair [OF mean_triple mean_facts(1,2,3) this, of vzero vzero vzero]
  show ?thesis by (simp add: mean_re_def mean_D_def)
qed

section \<open>Pairs at distance zero\<close>

lemma norm3_zero: "norm3 d = 0 \<Longrightarrow> d = (0, 0, 0)"
proof -
  assume a: "norm3 d = 0"
  obtain x y z where d: "d = (x, y, z)" by (cases d)
  have nn: "0 \<le> x * x" "0 \<le> y * y" "0 \<le> z * z" by simp_all
  from a d have "x * x + y * y + z * z = 0" by simp
  with nn have "x * x = 0" "y * y = 0" "z * z = 0" by linarith+
  with d show ?thesis by simp
qed

lemma times_PInf_nonfinite: "\<not> finite_npf (c * PInf)"
  by (cases c) simp_all

lemma times_nonfinite: "\<not> finite_npf c \<Longrightarrow> \<not> finite_npf (c * e)"
  by (cases c; cases e) simp_all

lemma nonfinite_times_zero: "\<not> finite_npf c \<Longrightarrow> c * Fin 0 = NaN"
  by (cases c) simp_all

lemma pair_force_zero_distance:
  assumes "norm3 d = 0"
  shows "pair_force prm d = vnan"
proof -
  from assms have d: "d = (0, 0, 0)" by (rule norm3_zero)
  define C where "C = log2 / (fst prm / snd (snd prm) - Fin 1)"
  define E where "E = np_exp (Fin (- 2) * C * (Fin 0 / snd (snd prm) - fst prm / snd (snd prm)))
        - np_exp (- C * (Fin 0 / snd (snd prm) - fst prm / snd (snd prm)))"
  define c where "c = (Fin 2 * fst (snd prm) * C / snd (snd prm)) * (Fin 1 / Fin 0) * E"
  have "Fin 1 / Fin 0 = PInf" by simp
  then have "\<not> finite_npf c"
    unfolding c_def by (simp add: times_PInf_nonfinite times_nonfinite)
  then have "c * Fin 0 = NaN" by (rule nonfinite_times_zero)
  moreover have "pair_force prm d = vscale c (0, 0, 0)"
    unfolding d by (simp add: pair_force_def morse_force_def Let_def c_def E_def C_def)
  ultimately show ?thesis by (simp add: vnan_def)
qed

lemma plus_NaN [simp]: "x + NaN = NaN" "NaN + x = NaN"
  by (cases x; simp)+

lemma vnan_absorbs [simp]:
  "vadd vnan v = vnan" "vadd v vnan = vnan" "vsub vnan v = vnan" "vsub v vnan = vnan"
proof -
  obtain x y z where "v = (x, y, z)" by (cases v)
  then show "vadd vnan v = vnan" "vadd v vnan = vnan" "vsub vnan v = vnan" "vsub v vnan = vnan"
    by (simp_all add: vnan_def minus_npf_def)
qed

lemma rows_sum_vnan: "vnan \<in> set f \<Longrightarrow> rows_sum f = vnan"
  by (induction f) auto

lemma add_contribs_keeps_vnan:
  "k < length forces \<Longrightarrow> forces ! k = vnan \<Longrightarrow> add_contribs forces cs ! k = vnan"
proof (induction forces cs rule: add_contribs.induct)
  case (1 forces)
  then show ?case by simp
next
  case (2 forces a2 f2 rest)
  then show ?case by (cases "a2 = k") simp_all
qed

lemma atom_step_forces:
  assumes "atom_step cmb prms positions cl nl a1 (energy, forces) = Inr (energy', forces')"
  shows "forces' =
      add_contribs (forces[a1 := vsub (forces ! a1) (rows_sum (entry_forces cmb prms positions cl (nl ! a1) a1))])
        (zip (map fst (nl ! a1)) (entry_forces cmb prms positions cl (nl ! a1) a1))"
    and "\<forall>en \<in> set (nl ! a1). fst en < length positions"
  using assms
  by (auto simp: atom_step_def Let_def map2_same entry_forces_def list_all_iff split: if_splits)

lemma atom_step_keeps_vnan:
  assumes "atom_step cmb prms positions cl nl a1 (energy, forces) = Inr (energy', forces')"
    and "k < length forces" and "forces ! k = vnan"
  shows "forces' ! k = vnan"
proof -
  have "(forces[a1 := vsub (forces ! a1) s]) ! k = vnan" for s
    using assms(2,3) by (cases "a1 = k") simp_all
  then show ?thesis
    unfolding atom_step_forces(1) [OF assms(1)]
    using assms(2) by (simp add: add_contribs_keeps_vnan)
qed

lemma atom_step_makes_vnan:
  assumes "atom_step cmb prms positions cl nl a1 (energy, forces) = Inr (energy', forces')"
    and "a1 < length forces" and "en \<in> set (nl ! a1)"
    and "norm3 (displacement positions cl a1 en) = 0"
  shows "forces' ! a1 = vnan"
proof -
  let ?f = "entry_forces cmb prms positions cl (nl ! a1) a1"
  have "pair_force (combine cmb (last prms) (prms ! a1) (prms ! fst en))
          (displacement positions cl a1 en) = vnan"
    using assms(4) by (rule pair_force_zero_distance)
  then have "vnan = pair_force (combine cmb (last prms) (prms ! a1) (prms ! fst en))
          (displacement positions cl a1 en)" by simp
  with assms(3) have "vnan \<in> set ?f"
    unfolding entry_forces_def set_map by (rule rev_image_eqI)
  then have "rows_sum ?f = vnan" by (rule rows_sum_vnan)
  then have "(forces[a1 := vsub (forces ! a1) (rows_sum ?f)]) ! a1 = vnan"
    using assms(2) by simp
  with assms(2) show ?thesis
    unfolding atom_step_forces(1) [OF assms(1)] by (simp add: add_contribs_keeps_vnan)
qed

lemma atoms_loop_keeps_vnan:
  assumes "atoms_loop (atom_step cmb prms positions cl nl) xs (energy, forces) = Inr (energy', forces')"
    and "k < length forces" and "forces ! k = vnan"
  shows "forces' ! k = vnan"
  using assms
proof (induction xs arbitrary: energy forces)
  case Nil
  then show ?case by simp
next
  case (Cons a1 rest)
  then obtain e1 f1 where step: "atom_step cmb prms positions cl nl a1 (energy, forces) = Inr (e1, f1)"
    and rest: "atoms_loop (atom_step cmb prms positions cl nl) rest (e1, f1) = Inr (energy', forces')"
    by (auto split: sum.splits)
  have nan: "f1 ! k = vnan"
    by (rule atom_step_keeps_vnan [OF step Cons.prems(2,3)])
  have "k < length f1"
    using atom_step_result(2) [OF step] Cons.prems(2) by simp
  then show ?case using nan by (rule Cons.IH [OF rest])
qed

lemma atoms_loop_makes_vnan:
  assumes "atoms_loop (atom_step cmb prms positions cl nl) xs (energy, forces) = Inr (energy', forces')"
    and "a \<in> set xs" and "a < length forces" and "en \<in> set (nl ! a)"
    and "norm3 (displacement positions cl a en) = 0"
  shows "forces' ! a = vnan"
  using assms(1,2,3)
proof (induction xs arbitrary: energy forces)
  case Nil
  then show ?case by simp
next
  case (Cons a1 rest)
  then obtain e1 f1 where step: "atom_step cmb prms positions cl nl a1 (energy, forces) = Inr (e1, f1)"
    and rest: "atoms_loop (atom_step cmb prms positions cl nl) rest (e1, f1) = Inr (energy', forces')"
    by (auto split: sum.splits)
  have len: "a < length f1"
    using atom_step_result(2) [OF step] Cons.prems(3) by simp
  show ?case
  proof (cases "a1 = a")
    case True
    have "f1 ! a = vnan"
      using step Cons.prems(3) assms(4,5) unfolding True by (rule atom_step_makes_vnan)
    with rest len show ?thesis by (rule atoms_loop_keeps_vnan)
  next
    case False
    with Cons.prems(2) have "a \<in> set rest" by simp
    with rest show ?thesis using len by (rule Cons.IH)
  qed
qed

lemma zero_distance_gives_nan:
  assumes "\<forall>a \<in> set (atoms img). symbol a \<in> dom (params self)"
    and "neighborlist self img = Some nl"
    and "length (atoms img) \<le> length nl"
    and "\<forall>a < length (atoms img). \<forall>en \<in> set (nl ! a). fst en < length (atoms img)"
    and "a1 < length (atoms img)" and "en \<in> set (nl ! a1)"
    and "norm3 (displacement (map position (atoms img)) (cell img) a1 en) = 0"
  shows "\<exists>energy forces. image_pred self img = Inr (energy, forces, length (atoms img))
           \<and> forces ! a1 = vnan"
proof -
  from assms(5) have "atoms img \<noteq> []" by auto
  from image_pred_returns [OF assms(1-4) this] obtain energy forces
    where r: "image_pred self img = Inr (energy, forces, length (atoms img))" by blast
  from r obtain prms nl' where "neighborlist self img = Some nl'"
    and loop: "atoms_loop (atom_step (combo self) prms (map position (atoms img)) (cell img) nl')
             [0..<length (atoms img)] (Fin 0, replicate (length (atoms img)) vzero)
         = Inr (energy, forces)"
    by (rule image_pred_parts)
  with assms(2) have nl: "nl' = nl" by simp
  have "forces ! a1 = vnan"
    using loop [unfolded nl] _ _ assms(6,7)
    by (rule atoms_loop_makes_vnan) (use assms(5) in simp_all)
  with r show ?thesis by blast
qed

lemma cu_overlap_wf:
  "\<forall>a \<in> set (atoms cu_overlap). symbol a \<in> dom (params cu_model)"
  "neighborlist cu_model cu_overlap = Some [[(1, (0, 0, 0))], [(0, (0, 0, 0))]]"
  "length (atoms cu_overlap) = 2"
  by (simp_all add: cu_model_def cu_overlap_def cu_dimer_def lone_cu_def lone_h_def)

lemma cu_dimer_wf:
  "\<forall>a \<in> set (atoms cu_dimer). symbol a \<in> dom (params cu_model)"
  "neighborlist cu_model cu_dimer = Some [[(1, (0, 0, 0))], [(0, (0, 0, 0))]]"
  "length (atoms cu_dimer) = 2"
  by (simp_all add: cu_model_def cu_overlap_def cu_dimer_def lone_cu_def lone_h_def)

lemma two_atoms_indices:
  "\<forall>a < 2. \<forall>en \<in> set ([[(1, (0, 0, 0))], [(0, (0, 0, 0))]] ! a). fst en < (2::nat)"
  by (simp add: less_Suc_eq numeral_2_eq_2)

lemma cu_overlap_zero:
  "norm3 (displacement (map position (atoms cu_overlap)) (cell cu_overlap) 0 (1, (0, 0, 0))) = 0"
  "norm3 (displacement (map position (atoms cu_overlap)) (cell cu_overlap) (Suc 0) (0, (0, 0, 0))) = 0"
  by (simp_all add: cu_overlap_def displacement_def zero_cell_def)

text \<open>
  Claim C2, as stated, asks that a neighbour pair at distance zero ends the prediction
  with an error. It does not: for two \<^verbatim>\<open>Cu\<close> atoms at the same position, each the
  neighbour of the other, \<^verbatim>\<open>image_pred\<close> returns, and the force of the first atom is
  NaN in its three components.
\<close>

theorem zero_distance_not_rejected:
  "\<not> isl (image_pred cu_model cu_overlap)
   \<and> fst (snd (projr (image_pred cu_model cu_overlap))) ! 0 = vnan"
proof -
  have "\<exists>energy forces. image_pred cu_model cu_overlap
          = Inr (energy, forces, length (atoms cu_overlap)) \<and> forces ! 0 = vnan"
    by (rule zero_distance_gives_nan [OF cu_overlap_wf(1,2), where en = "(1, (0, 0, 0))"])
      (use two_atoms_indices cu_overlap_zero in \<open>simp_all add: cu_overlap_wf(3)\<close>)
  then show ?thesis by auto
qed

text \<open>
  Claim C2, amended. \<^verbatim>\<open>image_pred\<close> does not test the distances: for an image with
  parameters for all its elements and neighbour lists that name atoms of the image, it
  returns also when a pair is at distance zero, and the force it returns for the
  reference atom of that pair is NaN in its three components.
\<close>

theorem zero_distance_returns_nan_force:
  assumes "\<forall>a \<in> set (atoms img). symbol a \<in> dom (params self)"
    and "neighborlist self img = Some nl"
    and "length (atoms img) \<le> length nl"
    and "\<forall>a < length (atoms img). \<forall>en \<in> set (nl ! a). fst en < length (atoms img)"
    and "a1 < length (atoms img)" and "en \<in> set (nl ! a1)"
    and "norm3 (displacement (map position (atoms img)) (cell img) a1 en) = 0"
  shows "\<exists>energy forces. image_pred self img = Inr (energy, forces, length (atoms img))
           \<and> forces ! a1 = vnan"
  using assms by (rule zero_distance_gives_nan)

theorem zero_distance_returns_nan_force_witness:
  "\<exists>energy forces. image_pred cu_model cu_overlap = Inr (energy, forces, 2)
     \<and> forces ! 1 = vnan"
  using zero_distance_returns_nan_force [OF cu_overlap_wf(1,2), where en = "(0, (0, 0, 0))" and ?a1.0 = 1]
    two_atoms_indices cu_overlap_zero
  by (simp add: cu_overlap_wf(3))

section \<open>The energy\<close>

text \<open>
  Claim C5. The energy \<^verbatim>\<open>image_pred\<close> returns is the sum over the atoms \<^verbatim>\<open>a1\<close>
  and over the entries of the neighbour list of \<^verbatim>\<open>a1\<close> of
  \<open>D (exp(-2C(r* - re*)) - 2 exp(-C(r* - re*)))\<close>, with \<open>r* = r/sig\<close>,
  \<open>re* = re/sig\<close>, \<open>C = ln 2/(re* - 1)\<close> and \<open>(re, D, sig)\<close> from the
  combination rule. Every entry counts once with weight one; in the example the two
  directed entries of one pair at the equilibrium distance give twice \<open>-D\<close>.
\<close>

theorem energy_is_sum_over_directed_entries:
  assumes "image_pred self img = Inr (energy, forces, natoms)"
    and "build_params (params self) (map symbol (atoms img)) = Inr prms"
    and "neighborlist self img = Some nl"
  shows "energy = (\<Sum>a1\<leftarrow>[0..<natoms]. \<Sum>en\<leftarrow>nl ! a1.
           (let prm = combine (combo self) (last prms) (prms ! a1) (prms ! fst en);
                re = fst prm; D = fst (snd prm); sig = snd (snd prm);
                r = Fin (norm3 (displacement (map position (atoms img)) (cell img) a1 en));
                r_star = r / sig;
                re_star = re / sig;
                C = log2 / (re_star - Fin 1)
            in D * (np_exp (Fin (- 2) * C * (r_star - re_star))
                    - Fin 2 * np_exp (- C * (r_star - re_star)))))"
proof -
  from assms(1) obtain prms' nl' where
    "build_params (params self) (map symbol (atoms img)) = Inr prms'"
    "neighborlist self img = Some nl'"
    and loop: "atoms_loop (atom_step (combo self) prms' (map position (atoms img)) (cell img) nl')
             [0..<length (atoms img)] (Fin 0, replicate (length (atoms img)) vzero)
         = Inr (energy, forces)"
    and n: "natoms = length (atoms img)"
    by (rule image_pred_parts)
  with assms(2,3) have eq: "prms' = prms" "nl' = nl" by simp_all
  from atoms_loop_energy [OF loop] show ?thesis
    unfolding eq n by (simp add: pair_energy_def morse_energy_def Let_def)
qed

theorem energy_is_sum_over_directed_entries_witness:
  "fst (projr (image_pred cu_model cu_dimer)) = Fin (- 19.950252)"
proof -
  have atoms: "atoms cu_dimer \<noteq> []"
    using cu_dimer_wf(3) by auto
  have "\<exists>energy forces. image_pred cu_model cu_dimer = Inr (energy, forces, length (atoms cu_dimer))"
    using cu_dimer_wf(1,2) _ _ atoms
    by (rule image_pred_returns) (use two_atoms_indices in \<open>simp_all add: cu_dimer_wf(3)\<close>)
  then obtain energy forces where r: "image_pred cu_model cu_dimer = Inr (energy, forces, 2)"
    by (auto simp: cu_dimer_wf(3))
  obtain prms where bp: "build_params (params cu_model) (map symbol (atoms cu_dimer)) = Inr prms"
    using r by (rule image_pred_parts)
  have mean: "combo cu_model = ''mean''" by (simp add: cu_model_def)
  have "energy = Fin (- mean_D) + Fin (- mean_D)"
    using energy_is_sum_over_directed_entries [OF r bp cu_dimer_wf(2)]
    unfolding Let_def pair_energy_unfolded [unfolded Let_def, symmetric] mean
    by (simp add: numeral_2_eq_2 cu_dimer_disp mean_dimer_terms del: norm3.simps)
  with r show ?thesis by (simp add: mean_D_def)
qed

section \<open>The forces\<close>

lemma finite_plus [simp]: "finite_npf (x + y) \<longleftrightarrow> finite_npf x \<and> finite_npf y"
  by (cases x; cases y; simp)

lemma finite_uminus [simp]: "finite_npf (- x) \<longleftrightarrow> finite_npf x"
  by (cases x; simp)

lemma finite_minus [simp]: "finite_npf (x - y) \<longleftrightarrow> finite_npf x \<and> finite_npf y"
  by (simp add: minus_npf_def)

lemma minus_plus_cancel: "finite_npf s \<Longrightarrow> x - s + s = x"
  by (cases x; cases s; simp add: minus_npf_def)

lemma vfin_vadd [simp]: "vfin (vadd u v) \<longleftrightarrow> vfin u \<and> vfin v"
  by (cases u; cases v; auto)

lemma vfin_vsub [simp]: "vfin (vsub u v) \<longleftrightarrow> vfin u \<and> vfin v"
  by (cases u; cases v; auto)

lemma vfin_vzero [simp]: "vfin vzero"
  by (simp add: vzero_def)

lemma vsub_vadd_cancel: "vfin s \<Longrightarrow> vadd (vsub u s) s = u"
  by (cases u; cases s; simp add: minus_plus_cancel)

lemma vadd_assoc: "vadd (vadd u v) w = vadd u (vadd v w)"
  by (cases u; cases v; cases w; simp add: add.assoc)

lemma vadd_commute: "vadd u v = vadd v u"
  by (cases u; cases v; simp add: add.commute)

lemma vadd_vzero [simp]: "vadd u vzero = u" "vadd vzero u = u"
  by (cases u; simp add: vzero_def)+

lemma rows_sum_update_add:
  "k < length G \<Longrightarrow> rows_sum (G[k := vadd (G ! k) v]) = vadd (rows_sum G) v"
proof (induction G arbitrary: k)
  case Nil
  then show ?case by simp
next
  case (Cons g G)
  show ?case
  proof (cases k)
    case 0
    have "vadd (vadd g v) (rows_sum G) = vadd (vadd g (rows_sum G)) v"
      by (metis vadd_assoc vadd_commute)
    with 0 show ?thesis by simp
  next
    case (Suc j)
    with Cons.prems have "j < length G" by simp
    from Cons.IH [OF this] Suc show ?thesis by (simp add: vadd_assoc)
  qed
qed

lemma rows_sum_fin: "\<forall>v \<in> set f. vfin v \<Longrightarrow> vfin (rows_sum f)"
  by (induction f) simp_all

lemma rows_sum_replicate_vzero [simp]: "rows_sum (replicate n vzero) = vzero"
  by (induction n) simp_all

lemma add_contribs_total:
  "\<forall>c \<in> set cs. fst c < length G \<Longrightarrow>
   rows_sum (add_contribs G cs) = vadd (rows_sum G) (rows_sum (map snd cs))"
proof (induction G cs rule: add_contribs.induct)
  case (1 forces)
  then show ?case by simp
next
  case (2 forces a2 f2 rest)
  then have "rows_sum (add_contribs (forces[a2 := vadd (forces ! a2) f2]) rest)
      = vadd (rows_sum (forces[a2 := vadd (forces ! a2) f2])) (rows_sum (map snd rest))"
    by simp
  also have "rows_sum (forces[a2 := vadd (forces ! a2) f2]) = vadd (rows_sum forces) f2"
    using 2 by (simp add: rows_sum_update_add)
  finally show ?case by (simp add: vadd_assoc)
qed

lemma list_all_update_vfin:
  assumes "list_all vfin (G[k := v])" and "k < length G" and "vfin (G ! k)"
  shows "list_all vfin G"
proof -
  have "G = (G[k := v])[k := G ! k]" by simp
  then show ?thesis
    using assms by (metis list_all_length length_list_update nth_list_update)
qed

lemma add_contribs_fin:
  "list_all vfin (add_contribs G cs) \<Longrightarrow> \<forall>c \<in> set cs. fst c < length G \<Longrightarrow>
   list_all vfin G \<and> (\<forall>c \<in> set cs. vfin (snd c))"
proof (induction G cs rule: add_contribs.induct)
  case (1 forces)
  then show ?case by simp
next
  case (2 forces a2 f2 rest)
  let ?G = "forces[a2 := vadd (forces ! a2) f2]"
  from 2 have ih: "list_all vfin ?G" "\<forall>c \<in> set rest. vfin (snd c)" by simp_all
  from 2 have a2: "a2 < length forces" by simp
  from ih(1) a2 have "vfin (?G ! a2)"
    unfolding list_all_length by (metis length_list_update)
  with a2 have fin: "vfin (forces ! a2)" "vfin f2" by simp_all
  from list_all_update_vfin [OF ih(1) a2 fin(1)] ih(2) fin(2) show ?case by simp
qed

lemma length_entry_forces [simp]:
  "length (entry_forces cmb prms positions cl entries a1) = length entries"
  by (simp add: entry_forces_def)

lemma atom_step_total:
  assumes step: "atom_step cmb prms positions cl nl a1 (energy, forces) = Inr (energy', forces')"
    and a1: "a1 < length forces"
    and len: "length positions = length forces"
    and fin: "list_all vfin forces'"
  shows "list_all vfin forces \<and> rows_sum forces' = rows_sum forces"
proof -
  define f where "f = entry_forces cmb prms positions cl (nl ! a1) a1"
  define s where "s = rows_sum f"
  define F1 where "F1 = forces[a1 := vsub (forces ! a1) s]"
  define cs where "cs = zip (map fst (nl ! a1)) f"
  have F': "forces' = add_contribs F1 cs"
    using atom_step_forces(1) [OF step] by (simp add: F1_def cs_def s_def f_def)
  have idx: "\<forall>c \<in> set cs. fst c < length F1"
  proof
    fix c assume "c \<in> set cs"
    then have "(fst c, snd c) \<in> set (zip (map fst (nl ! a1)) f)"
      unfolding cs_def by simp
    then have "fst c \<in> set (map fst (nl ! a1))"
      by (rule set_zip_leftD)
    with atom_step_forces(2) [OF step] len show "fst c < length F1"
      by (auto simp: F1_def)
  qed
  have snd_cs: "map snd cs = f"
    by (simp add: cs_def f_def)
  from add_contribs_fin [OF fin [unfolded F'] idx]
  have fin1: "list_all vfin F1" and fin_cs: "\<forall>c \<in> set cs. vfin (snd c)" by simp_all
  from fin_cs have "\<forall>v \<in> set (map snd cs). vfin v" by simp
  then have "\<forall>v \<in> set f. vfin v" unfolding snd_cs .
  then have fin_s: "vfin s" unfolding s_def by (rule rows_sum_fin)
  from a1 have "a1 < length F1" by (simp add: F1_def)
  with fin1 have "vfin (F1 ! a1)"
    unfolding list_all_length by blast
  with a1 have fin_a1: "vfin (forces ! a1)" by (simp add: F1_def)
  have fin0: "list_all vfin forces"
    using fin1 a1 fin_a1 unfolding F1_def by (rule list_all_update_vfin)
  have undo: "forces = F1[a1 := vadd (F1 ! a1) s]"
    using a1 by (simp add: F1_def vsub_vadd_cancel [OF fin_s])
  have "rows_sum forces' = vadd (rows_sum F1) s"
    unfolding F' using add_contribs_total [OF idx] by (simp add: snd_cs s_def)
  also have "\<dots> = rows_sum (F1[a1 := vadd (F1 ! a1) s])"
    using \<open>a1 < length F1\<close> by (rule rows_sum_update_add [symmetric])
  also have "\<dots> = rows_sum forces" using undo by simp
  finally show ?thesis using fin0 by simp
qed

lemma atoms_loop_total:
  assumes "atoms_loop (atom_step cmb prms positions cl nl) xs (energy, forces) = Inr (energy', forces')"
    and "\<forall>a \<in> set xs. a < length forces"
    and "length positions = length forces"
    and "list_all vfin forces'"
  shows "list_all vfin forces \<and> rows_sum forces' = rows_sum forces"
  using assms(1,2,3)
proof (induction xs arbitrary: energy forces)
  case Nil
  with assms(4) show ?case by simp
next
  case (Cons a1 rest)
  then obtain e1 f1 where step: "atom_step cmb prms positions cl nl a1 (energy, forces) = Inr (e1, f1)"
    and rest: "atoms_loop (atom_step cmb prms positions cl nl) rest (e1, f1) = Inr (energy', forces')"
    by (auto split: sum.splits)
  have len: "length f1 = length forces" by (rule atom_step_result(2) [OF step])
  have "list_all vfin f1 \<and> rows_sum forces' = rows_sum f1"
    using rest by (rule Cons.IH) (use Cons.prems len in simp_all)
  moreover from this have "list_all vfin forces \<and> rows_sum f1 = rows_sum forces"
    using step Cons.prems by (intro atom_step_total [OF step]) simp_all
  ultimately show ?case by simp
qed

lemma pair_force_finite:
  assumes "s \<noteq> 0" and "re0 \<noteq> s" and "norm3 d \<noteq> 0"
  shows "vfin (pair_force (Fin re0, Fin D0, Fin s) d)"
  using assms by (cases d) (simp add: pair_force_def morse_force_def Let_def log2_def)

lemma list_all_update:
  "list_all P G \<Longrightarrow> P v \<Longrightarrow> list_all P (G[k := v])"
  unfolding list_all_iff using set_update_subset_insert [of G k v] by auto

lemma add_contribs_fin_forward:
  "list_all vfin G \<Longrightarrow> \<forall>c \<in> set cs. fst c < length G \<and> vfin (snd c) \<Longrightarrow>
   list_all vfin (add_contribs G cs)"
proof (induction G cs rule: add_contribs.induct)
  case (1 forces)
  then show ?case by simp
next
  case (2 forces a2 f2 rest)
  then have "vfin (forces ! a2)" by (simp add: list_all_length)
  with 2 have "list_all vfin (forces[a2 := vadd (forces ! a2) f2])"
    by (intro list_all_update) simp_all
  with 2 show ?case by simp
qed

lemma atom_step_fin_forward:
  assumes step: "atom_step cmb prms positions cl nl a1 (energy, forces) = Inr (energy', forces')"
    and a1: "a1 < length forces"
    and len: "length positions = length forces"
    and fin: "list_all vfin forces"
    and rows: "\<forall>v \<in> set (entry_forces cmb prms positions cl (nl ! a1) a1). vfin v"
  shows "list_all vfin forces'"
proof -
  let ?f = "entry_forces cmb prms positions cl (nl ! a1) a1"
  from rows have "vfin (rows_sum ?f)" by (rule rows_sum_fin)
  moreover from fin a1 have "vfin (forces ! a1)" by (simp add: list_all_length)
  ultimately have "list_all vfin (forces[a1 := vsub (forces ! a1) (rows_sum ?f)])"
    using fin by (intro list_all_update) simp_all
  moreover have "\<forall>c \<in> set (zip (map fst (nl ! a1)) ?f).
      fst c < length (forces[a1 := vsub (forces ! a1) (rows_sum ?f)]) \<and> vfin (snd c)"
  proof
    fix c assume "c \<in> set (zip (map fst (nl ! a1)) ?f)"
    then have c: "(fst c, snd c) \<in> set (zip (map fst (nl ! a1)) ?f)" by simp
    from c have "fst c \<in> set (map fst (nl ! a1))" by (rule set_zip_leftD)
    moreover from c have "snd c \<in> set ?f" by (rule set_zip_rightD)
    ultimately show "fst c < length (forces[a1 := vsub (forces ! a1) (rows_sum ?f)]) \<and> vfin (snd c)"
      using atom_step_forces(2) [OF step] len rows by auto
  qed
  ultimately show ?thesis
    unfolding atom_step_forces(1) [OF step] by (rule add_contribs_fin_forward)
qed

lemma atoms_loop_fin_forward:
  assumes "atoms_loop (atom_step cmb prms positions cl nl) xs (energy, forces) = Inr (energy', forces')"
    and "\<forall>a \<in> set xs. a < length forces"
    and "length positions = length forces"
    and "list_all vfin forces"
    and "\<forall>a \<in> set xs. \<forall>v \<in> set (entry_forces cmb prms positions cl (nl ! a) a). vfin v"
  shows "list_all vfin forces'"
  using assms
proof (induction xs arbitrary: energy forces)
  case Nil
  then show ?case by simp
next
  case (Cons a1 rest)
  then obtain e1 f1 where step: "atom_step cmb prms positions cl nl a1 (energy, forces) = Inr (e1, f1)"
    and rest: "atoms_loop (atom_step cmb prms positions cl nl) rest (e1, f1) = Inr (energy', forces')"
    by (auto split: sum.splits)
  have len: "length f1 = length forces" by (rule atom_step_result(2) [OF step])
  have fin1: "list_all vfin f1"
    using step by (rule atom_step_fin_forward) (use Cons.prems in simp_all)
  show ?case
    using rest _ _ fin1 by (rule Cons.IH) (use Cons.prems len in simp_all)
qed

lemma cu_stretched_wf:
  "\<forall>a \<in> set (atoms cu_stretched). symbol a \<in> dom (params far_model)"
  "neighborlist far_model cu_stretched = Some [[(1, (0, 0, 0))], [(0, (0, 0, 0))]]"
  "length (atoms cu_stretched) = 2"
  "combo far_model = ''mean''"
  by (simp_all add: far_model_def cu_stretched_def)

lemma cu_stretched_disp:
  "displacement (map position (atoms cu_stretched)) (cell cu_stretched) 0 (Suc 0, (0, 0, 0)) = (2, 0, 0)"
  "displacement (map position (atoms cu_stretched)) (cell cu_stretched) (Suc 0) (0, (0, 0, 0)) = (- 2, 0, 0)"
  by (simp_all add: cu_stretched_def displacement_def zero_cell_def)

lemma mean_pair_force_finite:
  "norm3 d \<noteq> 0 \<Longrightarrow> vfin (pair_force (combine ''mean'' leaked p1 pn) d)"
  unfolding mean_triple by (rule pair_force_finite) simp_all

text \<open>
  Claim C6. The force vectors \<^verbatim>\<open>image_pred\<close> returns sum to the zero vector: every
  row of \<^verbatim>\<open>f\<close> is subtracted from the accumulator of \<^verbatim>\<open>a1\<close> and added to the
  accumulator of the neighbour. The arithmetic is exact and defined: the returned force
  components are all finite numbers (an infinite or NaN contribution would stay in the
  accumulator it enters). Symmetry of the neighbour lists and the absence of periodic
  images, which the claim assumes, are not needed.
\<close>

theorem forces_sum_to_zero:
  assumes "image_pred self img = Inr (energy, forces, natoms)"
    and "list_all vfin forces"
  shows "rows_sum forces = vzero"
proof -
  from assms(1) obtain prms nl where
    loop: "atoms_loop (atom_step (combo self) prms (map position (atoms img)) (cell img) nl)
             [0..<length (atoms img)] (Fin 0, replicate (length (atoms img)) vzero)
         = Inr (energy, forces)"
    by (rule image_pred_parts)
  have "list_all vfin (replicate (length (atoms img)) vzero)
        \<and> rows_sum forces = rows_sum (replicate (length (atoms img)) vzero)"
    using loop by (rule atoms_loop_total) (use assms(2) in simp_all)
  then show ?thesis by simp
qed

theorem forces_sum_to_zero_witness:
  "rows_sum (fst (snd (projr (image_pred far_model cu_stretched)))) = vzero"
proof -
  have atoms: "atoms cu_stretched \<noteq> []"
    using cu_stretched_wf(3) by auto
  have "\<exists>energy forces. image_pred far_model cu_stretched = Inr (energy, forces, length (atoms cu_stretched))"
    using cu_stretched_wf(1,2) _ _ atoms
    by (rule image_pred_returns) (use two_atoms_indices in \<open>simp_all add: cu_stretched_wf(3)\<close>)
  then obtain energy forces where r: "image_pred far_model cu_stretched = Inr (energy, forces, 2)"
    by (auto simp: cu_stretched_wf(3))
  from r obtain prms nl where "neighborlist far_model cu_stretched = Some nl"
    and loop: "atoms_loop (atom_step (combo far_model) prms (map position (atoms cu_stretched))
                 (cell cu_stretched) nl)
             [0..<length (atoms cu_stretched)] (Fin 0, replicate (length (atoms cu_stretched)) vzero)
         = Inr (energy, forces)"
    by (rule image_pred_parts)
  then have nl: "nl = [[(1, (0, 0, 0))], [(0, (0, 0, 0))]]"
    by (simp add: cu_stretched_wf(2))
  have "list_all vfin forces"
    using loop
  proof (rule atoms_loop_fin_forward)
    show "\<forall>a \<in> set [0..<length (atoms cu_stretched)].
            \<forall>v \<in> set (entry_forces (combo far_model) prms (map position (atoms cu_stretched))
                         (cell cu_stretched) (nl ! a) a). vfin v"
      unfolding nl cu_stretched_wf(3,4)
      by (simp add: numeral_2_eq_2 entry_forces_def cu_stretched_disp mean_pair_force_finite
          del: norm3.simps)
  qed (simp_all add: list_all_length)
  from forces_sum_to_zero [OF r this] r show ?thesis by simp
qed

end
